theory Spec2Isabelle
  imports Main
begin

section \<open>JavaScript strings\<close>

text \<open>
  A JavaScript string is a sequence of UTF-16 code units. The model uses HOL's
  \<open>string\<close>, a list of 8-bit characters, read as the code units 0 to 255
  (ASCII and Latin-1): every literal the program compares against or returns is in that
  range. \<open>length\<close> is the \<open>.length\<close> of the source, \<open>@\<close> is
  concatenation. Input lines with code units above 255 are outside the model.
\<close>

text \<open>
  \<open>String.prototype.toLowerCase\<close> on the code units 0 to 255: the letters A to Z
  (65 to 90) and the Latin-1 capitals (192 to 222, but not the multiplication sign 215)
  move up by 32, every other code unit stays.
\<close>

definition lower_char :: "char \<Rightarrow> char" where
  "lower_char c =
     (let n = (of_char c :: nat)
      in if (65 \<le> n \<and> n \<le> 90) \<or> (192 \<le> n \<and> n \<le> 222 \<and> n \<noteq> 215)
         then char_of (n + 32) else c)"

definition toLowerCase :: "string \<Rightarrow> string" where
  "toLowerCase s = map lower_char s"

text \<open>
  The white space and line terminators that \<open>String.prototype.trim\<close> removes, among
  the code units 0 to 255: TAB, LF, VT, FF, CR, SPACE and NBSP.
\<close>

definition is_ws :: "char \<Rightarrow> bool" where
  "is_ws c = ((of_char c :: nat) \<in> {9, 10, 11, 12, 13, 32, 160})"

definition trim :: "string \<Rightarrow> string" where
  "trim s = rev (dropWhile is_ws (rev (dropWhile is_ws s)))"

text \<open>A string is truthy when it is not empty: \<open>if (s)\<close>, \<open>!s\<close>, \<open>s || t\<close>.\<close>

definition truthy :: "string \<Rightarrow> bool" where
  "truthy s = (s \<noteq> [])"

definition js_or :: "string \<Rightarrow> string \<Rightarrow> string" where
  "js_or s t = (if truthy s then s else t)"

text \<open>\<open>Array.prototype.join\<close> on an array of strings.\<close>

fun join :: "string \<Rightarrow> string list \<Rightarrow> string" where
  "join sep [] = []"
| "join sep [x] = x"
| "join sep (x # y # ys) = x @ sep @ join sep (y # ys)"

text \<open>
  The decimal rendering of a non-negative integer, as a template literal renders
  \<open>${index + 1}\<close>.
\<close>

definition digit_char :: "nat \<Rightarrow> char" where
  "digit_char d = char_of (48 + d)"

fun show_nat :: "nat \<Rightarrow> string" where
  "show_nat n = (if n < 10 then [digit_char n] else show_nat (n div 10) @ [digit_char (n mod 10)])"

declare show_nat.simps [simp del]

section \<open>Conversation history\<close>

text \<open>
  One element of \<open>conversationHistory\<close> (indexing.js, lines 187 to 191). The
  timestamp is the text \<open>new Date().toISOString()\<close> returned.
\<close>

record entry =
  question :: string
  answer :: string
  timestamp :: string

text \<open>\<open>formatHistory\<close> (lines 96 to 104), reading the global it prints as a parameter.\<close>

definition format_entry :: "nat \<times> entry \<Rightarrow> string" where
  "format_entry p =
     (case p of (index, e) \<Rightarrow>
        ''[Turn '' @ show_nat (index + 1) @ '']\<newline>User: '' @ question e
          @ ''\<newline>Assistant: '' @ answer e)"

definition formatHistory :: "entry list \<Rightarrow> string" where
  "formatHistory conversationHistory =
     (if length conversationHistory = 0 then ''No previous conversation.''
      else join ''\<newline>\<newline>'' (map format_entry (enumerate 0 conversationHistory)))"

text \<open>
  Lines 187 to 196: \<open>push\<close> the new entry, then \<open>shift\<close> the oldest one out
  when the array has grown beyond 5.
\<close>

definition store_turn :: "entry list \<Rightarrow> entry \<Rightarrow> entry list" where
  "store_turn conversationHistory e =
     (let pushed = conversationHistory @ [e]
      in if length pushed > 5 then tl pushed else pushed)"

section \<open>Search results and the context string\<close>

text \<open>
  A match of the vector index, as far as the program reads it: \<open>metadata\<close> may be
  absent, and so may its \<open>text\<close> field (named \<open>md_text\<close> here). The id, the
  score and the values of a match are never read.
\<close>

record metadata =
  md_text :: "string option"

record match =
  metadata :: "metadata option"

text \<open>Line 131: \<open>match.metadata?.text || ''\<close>.\<close>

definition match_text :: "match \<Rightarrow> string" where
  "match_text m =
     (case metadata m of
        None \<Rightarrow> []
      | Some md \<Rightarrow> (case md_text md of None \<Rightarrow> [] | Some t \<Rightarrow> js_or t []))"

definition delimiter :: string where
  "delimiter = ''\<newline>\<newline>---\<newline>\<newline>''"

text \<open>Lines 130 to 133: map, filter, join.\<close>

definition build_context :: "match list \<Rightarrow> string" where
  "build_context matches =
     join delimiter (filter (\<lambda>t. length t > 0) (map match_text matches))"

section \<open>The outside world\<close>

text \<open>
  What the program writes with \<open>console.log\<close> and \<open>console.error\<close>, one constructor
  for each call site of the question phase, with the values it interpolates. Several of
  the source's literals start with a pictograph, so the messages are kept as names:
  \<^item> \<open>Processing\<close>: line 109, "Processing your question...";
  \<^item> \<open>CreatingEmbedding\<close>, \<open>EmbeddingCreated\<close>: lines 112 and 114;
  \<^item> \<open>SearchingPinecone\<close>: line 117;
  \<^item> \<open>FoundDocuments n\<close>: line 123, "Found n relevant documents";
  \<^item> \<open>NoRelevantDocuments\<close>: line 126, "No relevant documents found in database.
    Please check if documents were uploaded.";
  \<^item> \<open>NoTextContent\<close>: line 136, "No text content found in search results.";
  \<^item> \<open>AskingAI\<close>: line 144;
  \<^item> \<open>ResponseReceived\<close>, \<open>Answer a\<close>: lines 183 and 184;
  \<^item> \<open>ErrorDuringChatting m\<close>: line 199, "Error during chatting:" and the message
    of the caught error;
  \<^item> \<open>BotReady\<close>, \<open>Usage\<close>: lines 205 and 206;
  \<^item> \<open>Goodbye\<close>: line 212;
  \<^item> \<open>HistoryHeader\<close>, \<open>HistoryText s\<close>, \<open>HistoryFooter\<close>: lines 217 to 219;
  \<^item> \<open>HistoryCleared\<close>: line 225.
\<close>

datatype console =
    Processing
  | CreatingEmbedding
  | EmbeddingCreated
  | SearchingPinecone
  | FoundDocuments nat
  | NoRelevantDocuments
  | NoTextContent
  | AskingAI
  | ResponseReceived
  | Answer string
  | ErrorDuringChatting string
  | BotReady
  | Usage
  | Goodbye
  | HistoryHeader
  | HistoryText string
  | HistoryFooter
  | HistoryCleared

text \<open>
  The trace of a run: console output, the prompt of \<open>readlineSync.question\<close>, and the
  calls to the three services with their arguments (\<open>embeddings.embedQuery\<close>,
  \<open>pineconeIndex.query\<close> with its \<open>topK\<close> and vector, \<open>chain.invoke\<close> with
  context, question and history).
\<close>

datatype 'v event =
    is_Console: Console console
  | is_Prompt: Prompt
  | is_EmbedQuery: EmbedQuery string
  | is_PineconeQuery: PineconeQuery nat 'v
  | is_ChainInvoke: ChainInvoke string string string

text \<open>
  The services as they answer during one question. Each either throws (\<open>Inl\<close> with the
  error's message) or returns. The query's response may lack the \<open>matches\<close> array
  (\<open>None\<close>). \<open>'v\<close> is the type of query vectors, which the program only passes on.
\<close>

record 'v services =
  USE_OLLAMA :: bool
  embedQuery :: "string \<Rightarrow> string + 'v"
  pineconeQuery :: "nat \<Rightarrow> 'v \<Rightarrow> string + match list option"
  chainInvoke :: "string \<Rightarrow> string \<Rightarrow> string \<Rightarrow> string + string"
  toISOString :: string

text \<open>Line 22.\<close>

definition TOP_K_RESULTS :: "bool \<Rightarrow> nat" where
  "TOP_K_RESULTS use_ollama = (if use_ollama then 3 else 5)"

text \<open>
  The message of the TypeError that line 123 throws when it reads \<open>.length\<close> of an
  absent \<open>matches\<close>.
\<close>

definition undefined_length_message :: string where
  "undefined_length_message = ''Cannot read properties of undefined (reading 'length')''"

section \<open>The retrieval-and-answer operation\<close>

text \<open>
  \<open>chatting\<close> (lines 107 to 201). It returns the history it leaves behind and its
  trace. Every \<open>Inl\<close> branch is the \<open>catch\<close> of line 198.
\<close>

definition chatting ::
  "'v services \<Rightarrow> entry list \<Rightarrow> string \<Rightarrow> entry list \<times> 'v event list" where
  "chatting sv conversationHistory qn =
     (let ev1 = [Console Processing, Console CreatingEmbedding, EmbedQuery qn]
      in case embedQuery sv qn of
           Inl msg \<Rightarrow> (conversationHistory, ev1 @ [Console (ErrorDuringChatting msg)])
         | Inr queryVector \<Rightarrow>
             (let topK = TOP_K_RESULTS (USE_OLLAMA sv);
                  ev2 = ev1 @ [Console EmbeddingCreated, Console SearchingPinecone,
                               PineconeQuery topK queryVector]
              in case pineconeQuery sv topK queryVector of
                   Inl msg \<Rightarrow> (conversationHistory, ev2 @ [Console (ErrorDuringChatting msg)])
                 | Inr None \<Rightarrow>
                     (conversationHistory,
                      ev2 @ [Console (ErrorDuringChatting undefined_length_message)])
                 | Inr (Some matches) \<Rightarrow>
                     (let ev3 = ev2 @ [Console (FoundDocuments (length matches))]
                      in if length matches = 0
                         then (conversationHistory, ev3 @ [Console NoRelevantDocuments])
                         else (let context = build_context matches
                               in if \<not> truthy context
                                  then (conversationHistory, ev3 @ [Console NoTextContent])
                                  else (let historyContext = formatHistory conversationHistory;
                                            ev4 = ev3 @ [Console AskingAI,
                                                         ChainInvoke context qn historyContext]
                                        in case chainInvoke sv context qn historyContext of
                                             Inl msg \<Rightarrow>
                                               (conversationHistory,
                                                ev4 @ [Console (ErrorDuringChatting msg)])
                                           | Inr ans \<Rightarrow>
                                               (store_turn conversationHistory
                                                  \<lparr>question = qn, answer = ans,
                                                   timestamp = toISOString sv\<rparr>,
                                                ev4 @ [Console ResponseReceived,
                                                       Console (Answer ans)]))))))"

section \<open>The command loop\<close>

datatype control = Break | Continue

text \<open>One iteration of the loop of \<open>main\<close> after the line is read (lines 211 to 231).\<close>

definition main_step ::
  "'v services \<Rightarrow> entry list \<Rightarrow> string \<Rightarrow> control \<times> entry list \<times> 'v event list" where
  "main_step sv conversationHistory userProblem =
     (if toLowerCase userProblem = ''exit''
      then (Break, conversationHistory, [Console Goodbye])
      else if toLowerCase userProblem = ''history''
      then (Continue, conversationHistory,
            [Console HistoryHeader,
             Console (HistoryText (js_or (formatHistory conversationHistory) ''No history yet.'')),
             Console HistoryFooter])
      else if toLowerCase userProblem = ''clear''
      then (Continue, [], [Console HistoryCleared])
      else if truthy (trim userProblem)
      then (case chatting sv conversationHistory userProblem of
              (h, ev) \<Rightarrow> (Continue, h, ev))
      else (Continue, conversationHistory, []))"

text \<open>
  \<open>readlineSync.question\<close> of the readline-sync package, as line 209 calls it, with
  no options: by default (\<open>keepWhitespace\<close> is false) it returns the typed line with
  its leading and trailing white space removed.
\<close>

definition readlineSync_question :: "string \<Rightarrow> string" where
  "readlineSync_question typed = trim typed"

text \<open>
  The loop of lines 208 to 232 over the lines the user types, each with the services as
  they answer at that moment. The source loops until \<open>exit\<close>, blocking on the next
  line; the model stops where the typed lines end.
\<close>

fun main_loop :: "entry list \<Rightarrow> (string \<times> 'v services) list \<Rightarrow> entry list \<times> 'v event list" where
  "main_loop conversationHistory [] = (conversationHistory, [])"
| "main_loop conversationHistory ((typed, sv) # rest) =
     (case main_step sv conversationHistory (readlineSync_question typed) of
        (Break, h, ev) \<Rightarrow> (h, Prompt # ev)
      | (Continue, h, ev) \<Rightarrow>
          (case main_loop h rest of (h', ev') \<Rightarrow> (h', Prompt # ev @ ev')))"

text \<open>\<open>main\<close> (lines 204 to 233): the history starts empty (line 25).\<close>

definition main :: "(string \<times> 'v services) list \<Rightarrow> entry list \<times> 'v event list" where
  "main inputs =
     (case main_loop [] inputs of (h, ev) \<Rightarrow> (h, Console BotReady # Console Usage # ev))"

text \<open>
  \<open>chatting\<close> was entered: its first statement (line 109) is the only one that writes
  the \<open>Processing\<close> message.
\<close>

definition retrieval_invoked :: "'v event list \<Rightarrow> bool" where
  "retrieval_invoked ev = (Console Processing \<in> set ev)"

definition model_invoked :: "'v event list \<Rightarrow> bool" where
  "model_invoked ev = list_ex is_ChainInvoke ev"

section \<open>Notions of the specification\<close>

text \<open>
  A session of questions: \<open>chatting\<close> called on each question in turn, the history
  passed along.
\<close>

fun chats :: "entry list \<Rightarrow> (string \<times> 'v services) list \<Rightarrow> entry list" where
  "chats h [] = h"
| "chats h ((q, sv) # rest) = chats (fst (chatting sv h q)) rest"

text \<open>
  Every question of the session is answered, the answers being \<open>as\<close>: each call
  prints its answer (line 184).
\<close>

fun answered :: "entry list \<Rightarrow> (string \<times> 'v services) list \<Rightarrow> string list \<Rightarrow> bool" where
  "answered h [] as = (as = [])"
| "answered h ((q, sv) # rest) [] = False"
| "answered h ((q, sv) # rest) (a # as) =
     (Console (Answer a) \<in> set (snd (chatting sv h q))
      \<and> answered (fst (chatting sv h q)) rest as)"

text \<open>The ConversationTurns of a session whose questions were all answered.\<close>

fun turns :: "(string \<times> 'v services) list \<Rightarrow> string list \<Rightarrow> entry list" where
  "turns ((q, sv) # rest) (a # as) =
     \<lparr>question = q, answer = a, timestamp = toISOString sv\<rparr> # turns rest as"
| "turns _ _ = []"

text \<open>
  The numbered transcript of the specification: the entries in order, numbered from
  \<open>n\<close>, a blank line between two of them.
\<close>

definition turn_text :: "nat \<Rightarrow> entry \<Rightarrow> string" where
  "turn_text n e =
     ''[Turn '' @ show_nat n @ '']'' @ ''\<newline>'' @ ''User: '' @ question e @ ''\<newline>''
       @ ''Assistant: '' @ answer e"

fun numbered_transcript :: "nat \<Rightarrow> entry list \<Rightarrow> string" where
  "numbered_transcript n [] = []"
| "numbered_transcript n [e] = turn_text n e"
| "numbered_transcript n (e # e' # es) =
     turn_text n e @ ''\<newline>\<newline>'' @ numbered_transcript (Suc n) (e' # es)"

text \<open>A match whose metadata text is empty or absent.\<close>

definition text_missing :: "match \<Rightarrow> bool" where
  "text_missing m =
     (case metadata m of
        None \<Rightarrow> True
      | Some md \<Rightarrow> md_text md = None \<or> md_text md = Some [])"

text \<open>The chunk text a match carries, empty when there is none.\<close>

definition chunk_text :: "match \<Rightarrow> string" where
  "chunk_text m =
     (case metadata m of
        None \<Rightarrow> []
      | Some md \<Rightarrow> (case md_text md of None \<Rightarrow> [] | Some t \<Rightarrow> t))"

text \<open>
  The context string of the specification: the non-empty chunk texts in the order of the
  match list, the delimiter between two of them.
\<close>

fun spec_context :: "match list \<Rightarrow> string" where
  "spec_context [] = []"
| "spec_context (m # ms) =
     (if text_missing m then spec_context ms
      else if list_all text_missing ms then chunk_text m
      else chunk_text m @ delimiter @ spec_context ms)"

section \<open>Sample sessions\<close>

text \<open>Services that answer the same way whatever they are asked.\<close>

definition sample_services ::
  "(string + nat) \<Rightarrow> (string + match list option) \<Rightarrow> (string + string) \<Rightarrow> nat services" where
  "sample_services e s c =
     \<lparr>USE_OLLAMA = False, embedQuery = (\<lambda>_. e), pineconeQuery = (\<lambda>_ _. s),
      chainInvoke = (\<lambda>_ _ _. c), toISOString = ''2025-01-01T00:00:00.000Z''\<rparr>"

definition chunk :: "string \<Rightarrow> match" where
  "chunk t = \<lparr>metadata = Some \<lparr>md_text = Some t\<rparr>\<rparr>"

definition bare_match :: match where
  "bare_match = \<lparr>metadata = None\<rparr>"

definition sample_matches :: "match list" where
  "sample_matches = [chunk ''alpha'', bare_match, chunk [], chunk ''beta'']"

definition answering :: "string \<Rightarrow> nat services" where
  "answering a = sample_services (Inr 7) (Inr (Some sample_matches)) (Inr a)"

definition six_questions :: "(string \<times> nat services) list" where
  "six_questions =
     [(''q1'', answering ''a1''), (''q2'', answering ''a2''), (''q3'', answering ''a3''),
      (''q4'', answering ''a4''), (''q5'', answering ''a5''), (''q6'', answering ''a6'')]"

text \<open>Services for the ways a question can end without an answer.\<close>

definition no_match_services :: "nat services" where
  "no_match_services = sample_services (Inr 7) (Inr (Some [])) (Inr ''a'')"

definition empty_text_services :: "nat services" where
  "empty_text_services = sample_services (Inr 7) (Inr (Some [bare_match, chunk []])) (Inr ''a'')"

definition embed_failing :: "nat services" where
  "embed_failing = sample_services (Inl ''fetch failed'') (Inr (Some sample_matches)) (Inr ''a'')"

definition search_failing :: "nat services" where
  "search_failing = sample_services (Inr 7) (Inl ''index not found'') (Inr ''a'')"

definition model_failing :: "nat services" where
  "model_failing = sample_services (Inr 7) (Inr (Some sample_matches)) (Inl ''quota exceeded'')"

definition sample_history :: "entry list" where
  "sample_history =
     [\<lparr>question = ''q1'', answer = ''a1'', timestamp = ''t1''\<rparr>,
      \<lparr>question = ''q2'', answer = ''a2'', timestamp = ''t2''\<rparr>]"

section \<open>The history buffer keeps the last five turns\<close>

lemma store_turn_drop:
  "length h \<le> 5 \<Longrightarrow> store_turn h e = drop (length h + 1 - 5) (h @ [e])"
proof (cases "length h = 5")
  case True
  then have "length h + 1 - 5 = Suc 0" by simp
  moreover from True have "h \<noteq> []" by auto
  ultimately show ?thesis using True by (simp add: store_turn_def Let_def drop_Suc)
next
  case False
  assume "length h \<le> 5"
  with False have "length h + 1 - 5 = 0" by simp
  then show ?thesis using False \<open>length h \<le> 5\<close> by (simp add: store_turn_def Let_def)
qed

lemma store_turn_length: "length h \<le> 5 \<Longrightarrow> length (store_turn h e) \<le> 5"
  by (auto simp: store_turn_def Let_def)

lemma foldl_store_turn:
  "length h \<le> 5 \<Longrightarrow> foldl store_turn h es = drop (length h + length es - 5) (h @ es)"
proof (induction es arbitrary: h)
  case Nil
  then show ?case by simp
next
  case (Cons e es)
  have len: "length (store_turn h e) = min 5 (length h + 1)"
    using Cons.prems by (auto simp: store_turn_def Let_def)
  have "foldl store_turn (store_turn h e) es
      = drop (length (store_turn h e) + length es - 5) (store_turn h e @ es)"
    using Cons.IH [OF store_turn_length [OF Cons.prems]] .
  also have "\<dots> = drop (length (store_turn h e) + length es - 5) (drop (length h + 1 - 5) (h @ [e]) @ es)"
    using Cons.prems by (simp add: store_turn_drop)
  also have "drop (length h + 1 - 5) (h @ [e]) @ es = drop (length h + 1 - 5) (h @ e # es)"
    using Cons.prems by simp
  also have "drop (length (store_turn h e) + length es - 5) (drop (length h + 1 - 5) (h @ e # es))
      = drop (length h + length (e # es) - 5) (h @ e # es)"
    unfolding drop_drop len using Cons.prems
    by (intro arg_cong2 [where f = drop]) (auto simp: min_def)
  finally show ?case by simp
qed

section \<open>Facts about strings\<close>

lemma lower_char_ws: "is_ws c \<Longrightarrow> lower_char c = c"
  by (auto simp: is_ws_def lower_char_def Let_def)

lemma command_chars_not_ws:
  "s \<in> {''exit'', ''history'', ''clear''} \<Longrightarrow> c \<in> set s \<Longrightarrow> \<not> is_ws c"
  by (auto simp: is_ws_def)

lemma toLowerCase_command_no_ws:
  assumes "toLowerCase s \<in> {''exit'', ''history'', ''clear''}" and "c \<in> set s"
  shows "\<not> is_ws c"
proof
  assume ws: "is_ws c"
  then have "lower_char c = c" by (rule lower_char_ws)
  with assms(2) have "c \<in> set (toLowerCase s)"
    unfolding toLowerCase_def by (metis image_eqI set_map)
  with assms(1) ws show False using command_chars_not_ws by blast
qed

lemma dropWhile_all_iff: "(\<forall>x\<in>set (dropWhile P xs). P x) \<longleftrightarrow> (\<forall>x\<in>set xs. P x)"
proof
  assume a: "\<forall>x\<in>set (dropWhile P xs). P x"
  have "dropWhile P xs = []"
  proof (rule ccontr)
    assume ne: "dropWhile P xs \<noteq> []"
    then have "\<not> P (hd (dropWhile P xs))" by (rule hd_dropWhile)
    moreover from ne have "hd (dropWhile P xs) \<in> set (dropWhile P xs)" by simp
    ultimately show False using a by blast
  qed
  then show "\<forall>x\<in>set xs. P x" by (simp add: dropWhile_eq_Nil_conv)
next
  assume "\<forall>x\<in>set xs. P x"
  then show "\<forall>x\<in>set (dropWhile P xs). P x" by (meson set_dropWhileD)
qed

lemma trim_empty_iff: "trim s = [] \<longleftrightarrow> (\<forall>c\<in>set s. is_ws c)"
proof -
  have "trim s = [] \<longleftrightarrow> (\<forall>c\<in>set (dropWhile is_ws s). is_ws c)"
    by (simp add: trim_def dropWhile_eq_Nil_conv)
  then show ?thesis by (simp add: dropWhile_all_iff)
qed

section \<open>Facts about the rendered history\<close>

lemma join_Cons: "join sep (x # xs) = x @ (if xs = [] then [] else sep @ join sep xs)"
  by (cases xs) simp_all

lemma formatHistory_Cons:
  "formatHistory (e # es) = CHR ''['' # tl (formatHistory (e # es))"
  by (simp add: formatHistory_def enumerate_simps join_Cons format_entry_def)

lemma formatHistory_nonempty: "formatHistory h \<noteq> []"
proof (cases h)
  case Nil
  then show ?thesis by (simp add: formatHistory_def)
next
  case (Cons e es)
  then show ?thesis using formatHistory_Cons [of e es] by (metis list.distinct(1))
qed

lemma formatHistory_sentinel_iff:
  "formatHistory h = ''No previous conversation.'' \<longleftrightarrow> h = []"
proof (cases h)
  case Nil
  then show ?thesis by (simp add: formatHistory_def)
next
  case (Cons e es)
  have "formatHistory (e # es) \<noteq> ''No previous conversation.''"
  proof
    assume "formatHistory (e # es) = ''No previous conversation.''"
    with formatHistory_Cons [of e es] have "hd ''No previous conversation.'' = CHR ''[''"
      by (metis list.sel(1))
    then show False by simp
  qed
  with Cons show ?thesis by simp
qed

lemma format_entry_turn_text: "format_entry (n, e) = turn_text (Suc n) e"
  by (simp add: format_entry_def turn_text_def)

lemma join_enumerate_transcript:
  "join ''\<newline>\<newline>'' (map format_entry (enumerate n h)) = numbered_transcript (Suc n) h"
proof (induction h arbitrary: n)
  case Nil
  show ?case by simp
next
  case (Cons e es)
  show ?case
  proof (cases es)
    case Nil
    then show ?thesis by (simp add: format_entry_turn_text)
  next
    case (Cons e' es')
    with Cons.IH [of "Suc n"] show ?thesis
      by (simp add: format_entry_turn_text)
  qed
qed

lemma formatHistory_transcript: "h \<noteq> [] \<Longrightarrow> formatHistory h = numbered_transcript 1 h"
  using join_enumerate_transcript [of 0 h] by (simp add: formatHistory_def)

section \<open>Facts about the retrieval-and-answer operation\<close>

lemma chatting_invoked: "retrieval_invoked (snd (chatting sv h q))"
  by (simp add: chatting_def retrieval_invoked_def Let_def split: sum.splits option.splits)

lemma chatting_answer:
  "Console (Answer a) \<in> set (snd (chatting sv h q)) \<Longrightarrow>
   fst (chatting sv h q) = store_turn h \<lparr>question = q, answer = a, timestamp = toISOString sv\<rparr>"
  by (auto simp: chatting_def Let_def split: sum.splits option.splits if_splits)

lemma chatting_history_cases:
  "fst (chatting sv h q) = h \<or>
   (\<exists>a. fst (chatting sv h q) = store_turn h \<lparr>question = q, answer = a, timestamp = toISOString sv\<rparr>)"
  by (auto simp: chatting_def Let_def split: sum.splits option.splits if_splits)

lemma chatting_length: "length h \<le> 5 \<Longrightarrow> length (fst (chatting sv h q)) \<le> 5"
  using chatting_history_cases [of sv h q] store_turn_length by (metis)

lemma main_step_length: "length h \<le> 5 \<Longrightarrow> length (fst (snd (main_step sv h l))) \<le> 5"
  using chatting_length [of h sv l]
  by (auto simp: main_step_def split: prod.splits)

lemma main_loop_length: "length h \<le> 5 \<Longrightarrow> length (fst (main_loop h inputs)) \<le> 5"
proof (induction inputs arbitrary: h)
  case Nil
  then show ?case by simp
next
  case (Cons p inputs)
  obtain l sv where p: "p = (l, sv)" by (cases p)
  obtain c h' ev where st: "main_step sv h (readlineSync_question l) = (c, h', ev)"
    by (cases "main_step sv h (readlineSync_question l)")
  from main_step_length [OF Cons.prems, of sv "readlineSync_question l"] st
  have h': "length h' \<le> 5" by simp
  show ?case
  proof (cases c)
    case Break
    with p st h' show ?thesis by simp
  next
    case Continue
    with p st Cons.IH [OF h'] show ?thesis by (auto split: prod.splits)
  qed
qed

lemma chats_foldl: "answered h qs as \<Longrightarrow> chats h qs = foldl store_turn h (turns qs as)"
  by (induction h qs as rule: answered.induct) (auto dest: chatting_answer)

lemma answered_length: "answered h qs as \<Longrightarrow> length as = length qs"
  by (induction h qs as rule: answered.induct) simp_all

lemma turns_length: "length as = length qs \<Longrightarrow> length (turns qs as) = length qs"
  by (induction qs as rule: turns.induct) simp_all

lemma chats_answered:
  assumes "answered [] qs as"
  shows "chats [] qs = drop (length qs - 5) (turns qs as)"
  using foldl_store_turn [of "[]" "turns qs as"] chats_foldl [OF assms]
    turns_length [OF answered_length [OF assms]]
  by simp

lemma match_text_cases: "match_text m = (if text_missing m then [] else chunk_text m)"
  by (auto simp: match_text_def text_missing_def chunk_text_def js_or_def truthy_def
      split: option.splits)

lemma chunk_text_nonempty: "\<not> text_missing m \<Longrightarrow> chunk_text m \<noteq> []"
  by (auto simp: text_missing_def chunk_text_def split: option.splits)

lemma texts_empty_iff:
  "filter (\<lambda>t. t \<noteq> []) (map match_text ms) = [] \<longleftrightarrow> list_all text_missing ms"
  by (induction ms) (auto simp: match_text_cases chunk_text_nonempty)

lemma build_context_Cons:
  "build_context (m # ms) =
     (if text_missing m then build_context ms
      else if list_all text_missing ms then chunk_text m
      else chunk_text m @ delimiter @ build_context ms)"
proof (cases "text_missing m")
  case True
  then show ?thesis by (simp add: build_context_def match_text_cases)
next
  case False
  then have ne: "chunk_text m \<noteq> []" by (rule chunk_text_nonempty)
  show ?thesis
  proof (cases "list_all text_missing ms")
    case True
    then have "filter (\<lambda>t. t \<noteq> []) (map match_text ms) = []"
      by (simp add: texts_empty_iff)
    with False ne show ?thesis using True by (simp add: build_context_def match_text_cases)
  next
    case all: False
    then have "filter (\<lambda>t. t \<noteq> []) (map match_text ms) \<noteq> []"
      by (simp add: texts_empty_iff)
    with False ne all show ?thesis
      by (simp add: build_context_def match_text_cases join_Cons)
  qed
qed

lemma build_context_spec: "build_context ms = spec_context ms"
proof (induction ms)
  case Nil
  show ?case by (simp add: build_context_def)
next
  case (Cons m ms)
  then show ?case by (simp add: build_context_Cons)
qed

lemma build_context_empty: "list_all text_missing ms \<Longrightarrow> build_context ms = []"
  using texts_empty_iff [of ms] by (simp add: build_context_def)

lemma blank_not_command:
  assumes "trim l = []"
  shows "toLowerCase l \<notin> {''exit'', ''history'', ''clear''}"
proof
  assume c: "toLowerCase l \<in> {''exit'', ''history'', ''clear''}"
  then have "l \<noteq> []" by (auto simp: toLowerCase_def)
  then obtain x where x: "x \<in> set l" by (cases l) auto
  with assms have "is_ws x" by (simp add: trim_empty_iff)
  with toLowerCase_command_no_ws [OF c x] show False by simp
qed

lemma trim_padded:
  assumes pre: "\<forall>c\<in>set pre. is_ws c" and post: "\<forall>c\<in>set post. is_ws c"
    and mid: "\<forall>c\<in>set cmd. \<not> is_ws c" and ne: "cmd \<noteq> []"
  shows "trim (pre @ cmd @ post) = cmd"
proof -
  from ne obtain x xs where c: "cmd = x # xs" by (cases cmd) auto
  with mid have "\<not> is_ws x" by simp
  with c pre have 1: "dropWhile is_ws (pre @ cmd @ post) = cmd @ post"
    by (simp add: dropWhile_append2)
  from ne obtain y ys where r: "rev cmd = y # ys" by (cases "rev cmd") auto
  then have "y \<in> set cmd" by (metis list.set_intros(1) set_rev)
  with mid have "\<not> is_ws y" by simp
  then have "dropWhile is_ws (y # ys) = y # ys" by simp
  then have "dropWhile is_ws (rev cmd) = rev cmd" by (simp only: r)
  moreover have "dropWhile is_ws (rev post @ rev cmd) = dropWhile is_ws (rev cmd)"
    using post by (intro dropWhile_append2) simp
  ultimately have 2: "dropWhile is_ws (rev post @ rev cmd) = rev cmd" by simp
  show ?thesis by (simp add: trim_def 1 2)
qed

lemma question_padded_command:
  assumes "toLowerCase cmd \<in> {''exit'', ''history'', ''clear''}"
    and "\<forall>c\<in>set (pre @ post). is_ws c"
  shows "readlineSync_question (pre @ cmd @ post) = cmd"
proof -
  have "\<forall>c\<in>set cmd. \<not> is_ws c"
    using toLowerCase_command_no_ws [OF assms(1)] by blast
  moreover from assms(1) have "cmd \<noteq> []" by (auto simp: toLowerCase_def)
  ultimately show ?thesis
    using assms(2) unfolding readlineSync_question_def by (intro trim_padded) auto
qed

section \<open>The claims\<close>

text \<open>
  C1. Whatever turns are stored, one after the other, starting from the empty buffer, the
  buffer holds at most 5 entries and they are the last 5 stored, in the order they were
  stored (the oldest leave first); no run of \<open>main\<close> leaves more than 5 entries;
  and when every question of a session is answered, the history is the last 5 of its
  turns: after 6 answered questions \<open>formatHistory\<close> renders turns 2 to 6, numbered
  from 1, the first turn gone.
\<close>

theorem history_keeps_last_five:
  "length (foldl store_turn [] es) \<le> 5
   \<and> foldl store_turn [] es = drop (length es - 5) es
   \<and> length (fst (main inputs)) \<le> 5
   \<and> (answered [] qs as \<longrightarrow>
        chats [] qs = drop (length qs - 5) (turns qs as)
        \<and> (length qs = 6 \<longrightarrow>
             formatHistory (chats [] qs) = numbered_transcript 1 (tl (turns qs as))))"
proof -
  have fifo: "foldl store_turn [] es = drop (length es - 5) es"
    using foldl_store_turn [of "[]" es] by simp
  then have bound: "length (foldl store_turn [] es) \<le> 5" by simp
  have "length (fst (main_loop [] inputs)) \<le> 5"
    by (rule main_loop_length) simp
  then have inv: "length (fst (main inputs)) \<le> 5"
    by (cases "main_loop [] inputs") (simp add: main_def)
  have six: "formatHistory (chats [] qs) = numbered_transcript 1 (tl (turns qs as))"
    if a: "answered [] qs as" and l: "length qs = 6"
  proof -
    have len: "length (turns qs as) = 6"
      using turns_length [OF answered_length [OF a]] l by simp
    have "chats [] qs = drop 1 (turns qs as)"
      using chats_answered [OF a] l by simp
    then have eq: "chats [] qs = tl (turns qs as)" by (simp add: drop_Suc)
    from len have "tl (turns qs as) \<noteq> []" by (cases "turns qs as") auto
    with eq show ?thesis by (simp add: formatHistory_transcript)
  qed
  from fifo bound inv six chats_answered show ?thesis by blast
qed

text \<open>Six answered questions: the transcript shows the second to the sixth.\<close>

theorem history_keeps_last_five_witness:
  "answered [] six_questions [''a1'', ''a2'', ''a3'', ''a4'', ''a5'', ''a6'']
   \<and> length six_questions = 6
   \<and> formatHistory (chats [] six_questions) =
       ''[Turn 1]\<newline>User: q2\<newline>Assistant: a2\<newline>\<newline>[Turn 2]\<newline>User: q3\<newline>Assistant: a3\<newline>\<newline>[Turn 3]\<newline>User: q4\<newline>Assistant: a4\<newline>\<newline>[Turn 4]\<newline>User: q5\<newline>Assistant: a5\<newline>\<newline>[Turn 5]\<newline>User: q6\<newline>Assistant: a6''"
proof -
  let ?as = "[''a1'', ''a2'', ''a3'', ''a4'', ''a5'', ''a6'']"
  have a: "answered [] six_questions ?as" by code_simp
  have l: "length six_questions = 6" by (simp add: six_questions_def)
  have "formatHistory (chats [] six_questions) = numbered_transcript 1 (tl (turns six_questions ?as))"
    using history_keeps_last_five [of "[]" "[]" six_questions ?as] a l by blast
  also have "\<dots> = ''[Turn 1]\<newline>User: q2\<newline>Assistant: a2\<newline>\<newline>[Turn 2]\<newline>User: q3\<newline>Assistant: a3\<newline>\<newline>[Turn 3]\<newline>User: q4\<newline>Assistant: a4\<newline>\<newline>[Turn 4]\<newline>User: q5\<newline>Assistant: a5\<newline>\<newline>[Turn 5]\<newline>User: q6\<newline>Assistant: a6''"
    by code_simp
  finally show ?thesis using a l by blast
qed

text \<open>
  C5. \<open>formatHistory\<close> returns the sentinel "No previous conversation." exactly
  when the buffer is empty; otherwise it is the numbered transcript of all entries, in
  order, numbered from 1. After the \<open>clear\<close> command the buffer has size 0 and
  \<open>formatHistory\<close> returns the sentinel.
\<close>

theorem formatHistory_sentinel_or_transcript:
  "(formatHistory h = ''No previous conversation.'' \<longleftrightarrow> h = [])
   \<and> (h \<noteq> [] \<longrightarrow> formatHistory h = numbered_transcript 1 h)
   \<and> (toLowerCase l = ''clear'' \<longrightarrow>
        main_step sv h l = (Continue, [], [Console HistoryCleared])
        \<and> length (fst (snd (main_step sv h l))) = 0
        \<and> formatHistory (fst (snd (main_step sv h l))) = ''No previous conversation.'')"
proof -
  have "main_step sv h l = (Continue, [], [Console HistoryCleared])" if "toLowerCase l = ''clear''"
    using that by (simp add: main_step_def)
  moreover have "formatHistory [] = ''No previous conversation.''"
    by (simp add: formatHistory_def)
  ultimately show ?thesis
    using formatHistory_sentinel_iff [of h] formatHistory_transcript [of h] by simp
qed

text \<open>A history of two turns, and the command typed as "Clear".\<close>

theorem formatHistory_sentinel_or_transcript_witness:
  "sample_history \<noteq> []
   \<and> formatHistory sample_history =
       ''[Turn 1]\<newline>User: q1\<newline>Assistant: a1\<newline>\<newline>[Turn 2]\<newline>User: q2\<newline>Assistant: a2''
   \<and> toLowerCase ''Clear'' = ''clear''
   \<and> formatHistory (fst (snd (main_step (answering ''a'') sample_history ''Clear''))) =
       ''No previous conversation.''"
proof -
  have ne: "sample_history \<noteq> []" by (simp add: sample_history_def)
  have lc: "toLowerCase ''Clear'' = ''clear''" by code_simp
  note t = formatHistory_sentinel_or_transcript [of sample_history "''Clear''" "answering ''a''"]
  from t ne have "formatHistory sample_history = numbered_transcript 1 sample_history" by blast
  also have "\<dots> = ''[Turn 1]\<newline>User: q1\<newline>Assistant: a1\<newline>\<newline>[Turn 2]\<newline>User: q2\<newline>Assistant: a2''"
    by code_simp
  finally have f: "formatHistory sample_history =
       ''[Turn 1]\<newline>User: q1\<newline>Assistant: a1\<newline>\<newline>[Turn 2]\<newline>User: q2\<newline>Assistant: a2''" .
  from t lc have "formatHistory (fst (snd (main_step (answering ''a'') sample_history ''Clear''))) =
       ''No previous conversation.''" by blast
  with ne lc f show ?thesis by blast
qed

text \<open>
  C10. \<open>formatHistory\<close> never returns the empty string, so the
  \<open>|| 'No history yet.'\<close> of line 218 always yields the left operand: the
  \<open>history\<close> command prints \<open>formatHistory()\<close> itself, never the fallback.
\<close>

theorem formatHistory_never_empty:
  "formatHistory h \<noteq> []
   \<and> js_or (formatHistory h) ''No history yet.'' = formatHistory h
   \<and> (toLowerCase l = ''history'' \<longrightarrow>
        main_step sv h l =
          (Continue, h,
           [Console HistoryHeader, Console (HistoryText (formatHistory h)),
            Console HistoryFooter]))"
  using formatHistory_nonempty [of h]
  by (simp add: js_or_def truthy_def main_step_def)

text \<open>The command typed as "HISTORY" on an empty history prints the sentinel.\<close>

theorem formatHistory_never_empty_witness:
  "toLowerCase ''HISTORY'' = ''history''
   \<and> main_step (answering ''a'') [] ''HISTORY'' =
       (Continue, [],
        [Console HistoryHeader, Console (HistoryText ''No previous conversation.''),
         Console HistoryFooter])"
proof -
  have lc: "toLowerCase ''HISTORY'' = ''history''" by code_simp
  have "main_step (answering ''a'') [] ''HISTORY'' =
          (Continue, [],
           [Console HistoryHeader, Console (HistoryText (formatHistory [])),
            Console HistoryFooter])"
    using formatHistory_never_empty [of "[]" "''HISTORY''" "answering ''a''"] lc by blast
  then show ?thesis using lc by (simp add: formatHistory_def)
qed

text \<open>
  C2. When the embedding succeeds and the search returns an empty list of matches,
  \<open>chatting\<close> stops after the search: it writes the message of line 126 (no
  relevant documents found), never calls the chat model, and leaves the history as it
  was.
\<close>

theorem no_matches_short_circuit:
  assumes "embedQuery sv q = Inr v"
    and "pineconeQuery sv (TOP_K_RESULTS (USE_OLLAMA sv)) v = Inr (Some [])"
  shows "chatting sv h q =
           (h, [Console Processing, Console CreatingEmbedding, EmbedQuery q,
                Console EmbeddingCreated, Console SearchingPinecone,
                PineconeQuery (TOP_K_RESULTS (USE_OLLAMA sv)) v,
                Console (FoundDocuments 0), Console NoRelevantDocuments])
         \<and> Console NoRelevantDocuments \<in> set (snd (chatting sv h q))
         \<and> \<not> model_invoked (snd (chatting sv h q))
         \<and> fst (chatting sv h q) = h"
  using assms by (simp add: chatting_def Let_def model_invoked_def)

text \<open>A search with no match, on a history of two turns.\<close>

theorem no_matches_short_circuit_witness:
  "embedQuery no_match_services ''what?'' = Inr 7
   \<and> pineconeQuery no_match_services (TOP_K_RESULTS (USE_OLLAMA no_match_services)) 7
       = Inr (Some [])
   \<and> chatting no_match_services sample_history ''what?'' =
       (sample_history,
        [Console Processing, Console CreatingEmbedding, EmbedQuery ''what?'',
         Console EmbeddingCreated, Console SearchingPinecone, PineconeQuery 5 7,
         Console (FoundDocuments 0), Console NoRelevantDocuments])"
proof -
  have e: "embedQuery no_match_services ''what?'' = Inr 7"
    by (simp add: no_match_services_def sample_services_def)
  have s: "pineconeQuery no_match_services (TOP_K_RESULTS (USE_OLLAMA no_match_services)) 7
       = Inr (Some [])"
    by (simp add: no_match_services_def sample_services_def)
  have k: "TOP_K_RESULTS (USE_OLLAMA no_match_services) = 5"
    by (simp add: no_match_services_def sample_services_def TOP_K_RESULTS_def)
  from no_matches_short_circuit [OF e s, of sample_history] e s k show ?thesis by simp
qed

text \<open>
  C3, as the code has it. When the embedding succeeds and the search returns at least one
  match, all of them with empty or absent metadata text, \<open>chatting\<close> stops before
  the prompt: it writes the message of line 136 (no text content found in the search
  results), never calls the chat model, and leaves the history as it was.
\<close>

theorem empty_text_short_circuit:
  assumes "embedQuery sv q = Inr v"
    and "pineconeQuery sv (TOP_K_RESULTS (USE_OLLAMA sv)) v = Inr (Some ms)"
    and "ms \<noteq> []"
    and "\<forall>m\<in>set ms. text_missing m"
  shows "chatting sv h q =
           (h, [Console Processing, Console CreatingEmbedding, EmbedQuery q,
                Console EmbeddingCreated, Console SearchingPinecone,
                PineconeQuery (TOP_K_RESULTS (USE_OLLAMA sv)) v,
                Console (FoundDocuments (length ms)), Console NoTextContent])
         \<and> \<not> model_invoked (snd (chatting sv h q))
         \<and> fst (chatting sv h q) = h"
proof -
  from assms(4) have "build_context ms = []"
    by (simp add: build_context_empty list_all_iff)
  with assms(1-3) show ?thesis
    by (simp add: chatting_def Let_def model_invoked_def truthy_def)
qed

text \<open>Two matches, one without metadata and one with an empty text.\<close>

theorem empty_text_short_circuit_witness:
  "embedQuery empty_text_services ''what?'' = Inr 7
   \<and> pineconeQuery empty_text_services (TOP_K_RESULTS (USE_OLLAMA empty_text_services)) 7
       = Inr (Some [bare_match, chunk []])
   \<and> text_missing bare_match \<and> text_missing (chunk [])
   \<and> chatting empty_text_services sample_history ''what?'' =
       (sample_history,
        [Console Processing, Console CreatingEmbedding, EmbedQuery ''what?'',
         Console EmbeddingCreated, Console SearchingPinecone, PineconeQuery 5 7,
         Console (FoundDocuments 2), Console NoTextContent])"
proof -
  have e: "embedQuery empty_text_services ''what?'' = Inr 7"
    by (simp add: empty_text_services_def sample_services_def)
  have s: "pineconeQuery empty_text_services (TOP_K_RESULTS (USE_OLLAMA empty_text_services)) 7
       = Inr (Some [bare_match, chunk []])"
    by (simp add: empty_text_services_def sample_services_def)
  have k: "TOP_K_RESULTS (USE_OLLAMA empty_text_services) = 5"
    by (simp add: empty_text_services_def sample_services_def TOP_K_RESULTS_def)
  have m: "text_missing bare_match" "text_missing (chunk [])"
    by (simp_all add: text_missing_def bare_match_def chunk_def)
  then have a: "\<forall>m\<in>set [bare_match, chunk []]. text_missing m" by simp
  from empty_text_short_circuit [OF e s _ a, of sample_history] e s k m show ?thesis by simp
qed

text \<open>
  C3 as stated fails: with matches that carry no text, the message of line 126 (no
  relevant documents) is not among what \<open>chatting\<close> writes.
\<close>

theorem empty_text_other_message:
  "embedQuery empty_text_services ''what?'' = Inr 7
   \<and> pineconeQuery empty_text_services (TOP_K_RESULTS (USE_OLLAMA empty_text_services)) 7
       = Inr (Some [bare_match, chunk []])
   \<and> text_missing bare_match \<and> text_missing (chunk [])
   \<and> \<not> (Console NoRelevantDocuments \<in> set (snd (chatting empty_text_services [] ''what?''))
         \<and> \<not> model_invoked (snd (chatting empty_text_services [] ''what?''))
         \<and> fst (chatting empty_text_services [] ''what?'') = [])"
  by (simp add: empty_text_services_def sample_services_def TOP_K_RESULTS_def
      text_missing_def bare_match_def chunk_def chatting_def Let_def build_context_def
      match_text_def js_or_def truthy_def)

text \<open>
  C4. When \<open>embedQuery\<close> throws, when the index query throws, or when the chain
  invocation throws, \<open>chatting\<close> writes the error's message (line 199) as its last
  output and returns the history unchanged. More generally the history is unchanged
  whenever an error message was written, and whenever no response was received: a turn is
  stored only on success.
\<close>

theorem chatting_exception_leaves_history:
  "(embedQuery sv q = Inl msg \<longrightarrow>
      chatting sv h q =
        (h, [Console Processing, Console CreatingEmbedding, EmbedQuery q,
             Console (ErrorDuringChatting msg)]))
   \<and> (embedQuery sv q = Inr v
        \<and> pineconeQuery sv (TOP_K_RESULTS (USE_OLLAMA sv)) v = Inl msg \<longrightarrow>
      chatting sv h q =
        (h, [Console Processing, Console CreatingEmbedding, EmbedQuery q,
             Console EmbeddingCreated, Console SearchingPinecone,
             PineconeQuery (TOP_K_RESULTS (USE_OLLAMA sv)) v,
             Console (ErrorDuringChatting msg)]))
   \<and> (embedQuery sv q = Inr v
        \<and> pineconeQuery sv (TOP_K_RESULTS (USE_OLLAMA sv)) v = Inr (Some ms)
        \<and> truthy (build_context ms)
        \<and> chainInvoke sv (build_context ms) q (formatHistory h) = Inl msg \<longrightarrow>
      chatting sv h q =
        (h, [Console Processing, Console CreatingEmbedding, EmbedQuery q,
             Console EmbeddingCreated, Console SearchingPinecone,
             PineconeQuery (TOP_K_RESULTS (USE_OLLAMA sv)) v,
             Console (FoundDocuments (length ms)), Console AskingAI,
             ChainInvoke (build_context ms) q (formatHistory h),
             Console (ErrorDuringChatting msg)]))
   \<and> (Console (ErrorDuringChatting msg) \<in> set (snd (chatting sv h q)) \<longrightarrow>
        fst (chatting sv h q) = h)
   \<and> (Console ResponseReceived \<notin> set (snd (chatting sv h q)) \<longrightarrow>
        fst (chatting sv h q) = h)"
proof -
  have ne: "ms \<noteq> []" if "truthy (build_context ms)"
    using that by (auto simp: truthy_def build_context_def)
  have 1: "embedQuery sv q = Inl msg \<longrightarrow>
      chatting sv h q =
        (h, [Console Processing, Console CreatingEmbedding, EmbedQuery q,
             Console (ErrorDuringChatting msg)])"
    by (simp add: chatting_def Let_def)
  have 2: "embedQuery sv q = Inr v
        \<and> pineconeQuery sv (TOP_K_RESULTS (USE_OLLAMA sv)) v = Inl msg \<longrightarrow>
      chatting sv h q =
        (h, [Console Processing, Console CreatingEmbedding, EmbedQuery q,
             Console EmbeddingCreated, Console SearchingPinecone,
             PineconeQuery (TOP_K_RESULTS (USE_OLLAMA sv)) v,
             Console (ErrorDuringChatting msg)])"
    by (simp add: chatting_def Let_def)
  have 3: "embedQuery sv q = Inr v
        \<and> pineconeQuery sv (TOP_K_RESULTS (USE_OLLAMA sv)) v = Inr (Some ms)
        \<and> truthy (build_context ms)
        \<and> chainInvoke sv (build_context ms) q (formatHistory h) = Inl msg \<longrightarrow>
      chatting sv h q =
        (h, [Console Processing, Console CreatingEmbedding, EmbedQuery q,
             Console EmbeddingCreated, Console SearchingPinecone,
             PineconeQuery (TOP_K_RESULTS (USE_OLLAMA sv)) v,
             Console (FoundDocuments (length ms)), Console AskingAI,
             ChainInvoke (build_context ms) q (formatHistory h),
             Console (ErrorDuringChatting msg)])"
    using ne by (auto simp: chatting_def Let_def)
  have 4: "Console (ErrorDuringChatting msg) \<in> set (snd (chatting sv h q)) \<longrightarrow>
        fst (chatting sv h q) = h"
    by (auto simp: chatting_def Let_def split: sum.splits option.splits if_splits)
  have 5: "Console ResponseReceived \<notin> set (snd (chatting sv h q)) \<longrightarrow>
        fst (chatting sv h q) = h"
    by (auto simp: chatting_def Let_def split: sum.splits option.splits if_splits)
  from 1 2 3 4 5 show ?thesis by blast
qed

theorem chatting_exception_leaves_history_witness:
  "embedQuery embed_failing ''what?'' = Inl ''fetch failed''
   \<and> chatting embed_failing sample_history ''what?'' =
       (sample_history,
        [Console Processing, Console CreatingEmbedding, EmbedQuery ''what?'',
         Console (ErrorDuringChatting ''fetch failed'')])
   \<and> embedQuery search_failing ''what?'' = Inr 7
   \<and> pineconeQuery search_failing (TOP_K_RESULTS (USE_OLLAMA search_failing)) 7
       = Inl ''index not found''
   \<and> chatting search_failing sample_history ''what?'' =
       (sample_history,
        [Console Processing, Console CreatingEmbedding, EmbedQuery ''what?'',
         Console EmbeddingCreated, Console SearchingPinecone, PineconeQuery 5 7,
         Console (ErrorDuringChatting ''index not found'')])
   \<and> embedQuery model_failing ''what?'' = Inr 7
   \<and> pineconeQuery model_failing (TOP_K_RESULTS (USE_OLLAMA model_failing)) 7
       = Inr (Some sample_matches)
   \<and> truthy (build_context sample_matches)
   \<and> chainInvoke model_failing (build_context sample_matches) ''what?''
        (formatHistory sample_history) = Inl ''quota exceeded''
   \<and> chatting model_failing sample_history ''what?'' =
       (sample_history,
        [Console Processing, Console CreatingEmbedding, EmbedQuery ''what?'',
         Console EmbeddingCreated, Console SearchingPinecone, PineconeQuery 5 7,
         Console (FoundDocuments 4), Console AskingAI,
         ChainInvoke ''alpha\<newline>\<newline>---\<newline>\<newline>beta'' ''what?''
           ''[Turn 1]\<newline>User: q1\<newline>Assistant: a1\<newline>\<newline>[Turn 2]\<newline>User: q2\<newline>Assistant: a2'',
         Console (ErrorDuringChatting ''quota exceeded'')])"
proof -
  have e1: "embedQuery embed_failing ''what?'' = Inl ''fetch failed''"
    by (simp add: embed_failing_def sample_services_def)
  have e2: "embedQuery search_failing ''what?'' = Inr 7"
    by (simp add: search_failing_def sample_services_def)
  have s2: "pineconeQuery search_failing (TOP_K_RESULTS (USE_OLLAMA search_failing)) 7
       = Inl ''index not found''"
    by (simp add: search_failing_def sample_services_def)
  have k2: "TOP_K_RESULTS (USE_OLLAMA search_failing) = 5"
    by (simp add: search_failing_def sample_services_def TOP_K_RESULTS_def)
  have e3: "embedQuery model_failing ''what?'' = Inr 7"
    by (simp add: model_failing_def sample_services_def)
  have s3: "pineconeQuery model_failing (TOP_K_RESULTS (USE_OLLAMA model_failing)) 7
       = Inr (Some sample_matches)"
    by (simp add: model_failing_def sample_services_def)
  have k3: "TOP_K_RESULTS (USE_OLLAMA model_failing) = 5"
    by (simp add: model_failing_def sample_services_def TOP_K_RESULTS_def)
  have c: "build_context sample_matches = ''alpha\<newline>\<newline>---\<newline>\<newline>beta''"
    by code_simp
  have t3: "truthy (build_context sample_matches)" by (simp add: c truthy_def)
  have f: "formatHistory sample_history =
      ''[Turn 1]\<newline>User: q1\<newline>Assistant: a1\<newline>\<newline>[Turn 2]\<newline>User: q2\<newline>Assistant: a2''"
    by code_simp
  have l: "length sample_matches = 4" by (simp add: sample_matches_def)
  have m3: "chainInvoke model_failing (build_context sample_matches) ''what?''
        (formatHistory sample_history) = Inl ''quota exceeded''"
    by (simp add: model_failing_def sample_services_def)
  note t1 = chatting_exception_leaves_history
    [of embed_failing "''what?''" "''fetch failed''" sample_history 0 "[]"]
  note t2 = chatting_exception_leaves_history
    [of search_failing "''what?''" "''index not found''" sample_history 7 "[]"]
  note t3' = chatting_exception_leaves_history
    [of model_failing "''what?''" "''quota exceeded''" sample_history 7 sample_matches]
  from t1 e1 have r1: "chatting embed_failing sample_history ''what?'' =
       (sample_history,
        [Console Processing, Console CreatingEmbedding, EmbedQuery ''what?'',
         Console (ErrorDuringChatting ''fetch failed'')])" by blast
  from t2 e2 s2 have "chatting search_failing sample_history ''what?'' =
       (sample_history,
        [Console Processing, Console CreatingEmbedding, EmbedQuery ''what?'',
         Console EmbeddingCreated, Console SearchingPinecone,
         PineconeQuery (TOP_K_RESULTS (USE_OLLAMA search_failing)) 7,
         Console (ErrorDuringChatting ''index not found'')])" by blast
  then have r2: "chatting search_failing sample_history ''what?'' =
       (sample_history,
        [Console Processing, Console CreatingEmbedding, EmbedQuery ''what?'',
         Console EmbeddingCreated, Console SearchingPinecone, PineconeQuery 5 7,
         Console (ErrorDuringChatting ''index not found'')])" by (simp add: k2)
  from t3' e3 s3 t3 m3 have "chatting model_failing sample_history ''what?'' =
       (sample_history,
        [Console Processing, Console CreatingEmbedding, EmbedQuery ''what?'',
         Console EmbeddingCreated, Console SearchingPinecone,
         PineconeQuery (TOP_K_RESULTS (USE_OLLAMA model_failing)) 7,
         Console (FoundDocuments (length sample_matches)), Console AskingAI,
         ChainInvoke (build_context sample_matches) ''what?'' (formatHistory sample_history),
         Console (ErrorDuringChatting ''quota exceeded'')])" by blast
  then have r3: "chatting model_failing sample_history ''what?'' =
       (sample_history,
        [Console Processing, Console CreatingEmbedding, EmbedQuery ''what?'',
         Console EmbeddingCreated, Console SearchingPinecone, PineconeQuery 5 7,
         Console (FoundDocuments 4), Console AskingAI,
         ChainInvoke ''alpha\<newline>\<newline>---\<newline>\<newline>beta'' ''what?''
           ''[Turn 1]\<newline>User: q1\<newline>Assistant: a1\<newline>\<newline>[Turn 2]\<newline>User: q2\<newline>Assistant: a2'',
         Console (ErrorDuringChatting ''quota exceeded'')])"
    by (simp only: k3 c f l)
  from e1 r1 e2 s2 r2 e3 s3 t3 m3 r3 show ?thesis by blast
qed

text \<open>
  C7. When the search returns a non-empty list of matches, the context string built from
  it is the concatenation of the non-empty chunk texts in the order of the match list,
  with the delimiter (two line feeds, three hyphens, two line feeds) between two of them;
  and the chain is invoked with exactly that context, the question and the formatted
  history, once, unless the context is empty, when it is not invoked at all.
\<close>

theorem context_joins_chunk_texts:
  assumes "embedQuery sv q = Inr v"
    and "pineconeQuery sv (TOP_K_RESULTS (USE_OLLAMA sv)) v = Inr (Some ms)"
    and "ms \<noteq> []"
  shows "build_context ms = spec_context ms
         \<and> filter is_ChainInvoke (snd (chatting sv h q)) =
             (if spec_context ms = [] then []
              else [ChainInvoke (spec_context ms) q (formatHistory h)])"
proof -
  have "filter is_ChainInvoke (snd (chatting sv h q)) =
          (if build_context ms = [] then []
           else [ChainInvoke (build_context ms) q (formatHistory h)])"
    using assms by (simp add: chatting_def Let_def truthy_def split: sum.splits)
  then show ?thesis by (simp add: build_context_spec)
qed

text \<open>Four matches, two of them without text.\<close>

theorem context_joins_chunk_texts_witness:
  "embedQuery (answering ''a'') ''what?'' = Inr 7
   \<and> pineconeQuery (answering ''a'') (TOP_K_RESULTS (USE_OLLAMA (answering ''a''))) 7
       = Inr (Some [chunk ''alpha'', bare_match, chunk [], chunk ''beta''])
   \<and> build_context [chunk ''alpha'', bare_match, chunk [], chunk ''beta'']
       = ''alpha\<newline>\<newline>---\<newline>\<newline>beta''
   \<and> filter is_ChainInvoke (snd (chatting (answering ''a'') [] ''what?'')) =
       [ChainInvoke ''alpha\<newline>\<newline>---\<newline>\<newline>beta'' ''what?''
          ''No previous conversation.'']"
proof -
  let ?ms = "[chunk ''alpha'', bare_match, chunk [], chunk ''beta'']"
  have e: "embedQuery (answering ''a'') ''what?'' = Inr 7"
    by (simp add: answering_def sample_services_def)
  have s: "pineconeQuery (answering ''a'') (TOP_K_RESULTS (USE_OLLAMA (answering ''a''))) 7
       = Inr (Some ?ms)"
    by (simp add: answering_def sample_services_def sample_matches_def)
  have sc: "spec_context ?ms = ''alpha\<newline>\<newline>---\<newline>\<newline>beta''"
    by code_simp
  have f: "formatHistory [] = ''No previous conversation.''" by (simp add: formatHistory_def)
  have "?ms \<noteq> []" by simp
  note t = context_joins_chunk_texts [OF e s this, of "[]"]
  from t have t1: "build_context ?ms = spec_context ?ms" by (rule conjunct1)
  from t have t2: "filter is_ChainInvoke (snd (chatting (answering ''a'') [] ''what?'')) =
      (if spec_context ?ms = [] then []
       else [ChainInvoke (spec_context ?ms) ''what?'' (formatHistory [])])"
    by (rule conjunct2)
  have ne: "spec_context ?ms \<noteq> []" unfolding sc by simp
  from t1 have b: "build_context ?ms = ''alpha\<newline>\<newline>---\<newline>\<newline>beta''"
    unfolding sc .
  from t2 ne have "filter is_ChainInvoke (snd (chatting (answering ''a'') [] ''what?'')) =
      [ChainInvoke (spec_context ?ms) ''what?'' (formatHistory [])]"
    by (simp only: if_False)
  then have "filter is_ChainInvoke (snd (chatting (answering ''a'') [] ''what?'')) =
       [ChainInvoke ''alpha\<newline>\<newline>---\<newline>\<newline>beta'' ''what?''
          ''No previous conversation.'']"
    unfolding sc f .
  with e s b show ?thesis by blast
qed

text \<open>
  C6. A line that equals \<open>exit\<close>, \<open>history\<close> or \<open>clear\<close> once lowercased runs
  that command: \<open>exit\<close> says goodbye and leaves the loop, \<open>history\<close> prints the
  formatted history, \<open>clear\<close> empties the history. An empty or white-space-only line
  does nothing, and the loop goes on to prompt for the next line with the history as it
  was. In none of these cases is \<open>chatting\<close> entered.
\<close>

theorem reserved_commands_skip_retrieval:
  "(toLowerCase l = ''exit'' \<longrightarrow> main_step sv h l = (Break, h, [Console Goodbye]))
   \<and> (toLowerCase l = ''history'' \<longrightarrow>
        main_step sv h l =
          (Continue, h,
           [Console HistoryHeader, Console (HistoryText (formatHistory h)),
            Console HistoryFooter]))
   \<and> (toLowerCase l = ''clear'' \<longrightarrow> main_step sv h l = (Continue, [], [Console HistoryCleared]))
   \<and> (trim l = [] \<longrightarrow>
        main_step sv h l = (Continue, h, [])
        \<and> main_loop h ((l, sv) # rest) =
            (fst (main_loop h rest), Prompt # snd (main_loop h rest)))
   \<and> (toLowerCase l \<in> {''exit'', ''history'', ''clear''} \<or> trim l = [] \<longrightarrow>
        \<not> retrieval_invoked (snd (snd (main_step sv h l))))"
proof -
  have 1: "toLowerCase l = ''exit'' \<longrightarrow> main_step sv h l = (Break, h, [Console Goodbye])"
    by (simp add: main_step_def)
  have 2: "toLowerCase l = ''history'' \<longrightarrow>
        main_step sv h l =
          (Continue, h,
           [Console HistoryHeader, Console (HistoryText (formatHistory h)),
            Console HistoryFooter])"
    using formatHistory_nonempty [of h] by (simp add: main_step_def js_or_def truthy_def)
  have 3: "toLowerCase l = ''clear'' \<longrightarrow> main_step sv h l = (Continue, [], [Console HistoryCleared])"
    by (simp add: main_step_def)
  have blank: "main_step sv h l = (Continue, h, [])" if "trim l = []"
    using that blank_not_command [OF that] by (simp add: main_step_def truthy_def)
  have 4: "trim l = [] \<longrightarrow>
        main_step sv h l = (Continue, h, [])
        \<and> main_loop h ((l, sv) # rest) =
            (fst (main_loop h rest), Prompt # snd (main_loop h rest))"
  proof
    assume e: "trim l = []"
    have "main_step sv h [] = (Continue, h, [])"
      by (simp add: main_step_def toLowerCase_def trim_def truthy_def)
    with e blank [OF e] show "main_step sv h l = (Continue, h, [])
        \<and> main_loop h ((l, sv) # rest) =
            (fst (main_loop h rest), Prompt # snd (main_loop h rest))"
      by (simp add: readlineSync_question_def split: prod.splits)
  qed
  have 5: "toLowerCase l \<in> {''exit'', ''history'', ''clear''} \<or> trim l = [] \<longrightarrow>
        \<not> retrieval_invoked (snd (snd (main_step sv h l)))"
    using 1 2 3 blank by (auto simp: retrieval_invoked_def)
  from 1 2 3 4 5 show ?thesis by blast
qed

text \<open>The three commands in mixed case, and a line of a space, a tab and a space.\<close>

theorem reserved_commands_skip_retrieval_witness:
  "toLowerCase ''Exit'' = ''exit''
   \<and> main_step (answering ''a'') sample_history ''Exit'' =
       (Break, sample_history, [Console Goodbye])
   \<and> toLowerCase ''hiSTory'' = ''history''
   \<and> \<not> retrieval_invoked (snd (snd (main_step (answering ''a'') sample_history ''hiSTory'')))
   \<and> toLowerCase ''CLEAR'' = ''clear''
   \<and> main_step (answering ''a'') sample_history ''CLEAR'' =
       (Continue, [], [Console HistoryCleared])
   \<and> trim [CHR '' '', CHR 0x09, CHR '' ''] = []
   \<and> main_step (answering ''a'') sample_history [CHR '' '', CHR 0x09, CHR '' ''] =
       (Continue, sample_history, [])"
proof -
  have a: "toLowerCase ''Exit'' = ''exit''" by code_simp
  have b: "toLowerCase ''hiSTory'' = ''history''" by code_simp
  have c: "toLowerCase ''CLEAR'' = ''clear''" by code_simp
  have d: "trim [CHR '' '', CHR 0x09, CHR '' ''] = []" by code_simp
  from reserved_commands_skip_retrieval [of "''Exit''" "answering ''a''" sample_history "[]"] a
  have 1: "main_step (answering ''a'') sample_history ''Exit'' =
       (Break, sample_history, [Console Goodbye])" by blast
  from reserved_commands_skip_retrieval [of "''hiSTory''" "answering ''a''" sample_history "[]"] b
  have 2: "\<not> retrieval_invoked (snd (snd (main_step (answering ''a'') sample_history ''hiSTory'')))"
    by blast
  from reserved_commands_skip_retrieval [of "''CLEAR''" "answering ''a''" sample_history "[]"] c
  have 3: "main_step (answering ''a'') sample_history ''CLEAR'' =
       (Continue, [], [Console HistoryCleared])" by blast
  from reserved_commands_skip_retrieval
    [of "[CHR '' '', CHR 0x09, CHR '' '']" "answering ''a''" sample_history "[]"] d
  have 4: "main_step (answering ''a'') sample_history [CHR '' '', CHR 0x09, CHR '' ''] =
       (Continue, sample_history, [])" by blast
  from a b c d 1 2 3 4 show ?thesis by blast
qed

text \<open>
  C9, as the code has it. A typed line made of a reserved command (in any letter case)
  with white space before or after it reaches the dispatcher as the bare command:
  \<open>readlineSync.question\<close> (line 209) removes the white space. The comparison, which
  lowercases and never trims, then matches, the command runs and \<open>chatting\<close> is not
  entered.
\<close>

theorem padded_command_runs_command:
  assumes "toLowerCase cmd \<in> {''exit'', ''history'', ''clear''}"
    and "\<forall>c\<in>set (pre @ post). is_ws c"
  shows "readlineSync_question (pre @ cmd @ post) = cmd
         \<and> main_loop h ((pre @ cmd @ post, sv) # rest) = main_loop h ((cmd, sv) # rest)
         \<and> \<not> retrieval_invoked
               (snd (snd (main_step sv h (readlineSync_question (pre @ cmd @ post)))))
         \<and> (toLowerCase cmd = ''exit'' \<longrightarrow>
              main_loop h ((pre @ cmd @ post, sv) # rest) = (h, [Prompt, Console Goodbye]))
         \<and> (toLowerCase cmd = ''history'' \<longrightarrow>
              main_loop h ((pre @ cmd @ post, sv) # rest) =
                (fst (main_loop h rest),
                 Prompt # Console HistoryHeader # Console (HistoryText (formatHistory h))
                   # Console HistoryFooter # snd (main_loop h rest)))
         \<and> (toLowerCase cmd = ''clear'' \<longrightarrow>
              main_loop h ((pre @ cmd @ post, sv) # rest) =
                (fst (main_loop [] rest),
                 Prompt # Console HistoryCleared # snd (main_loop [] rest)))"
proof -
  let ?l = "pre @ cmd @ post"
  have q: "readlineSync_question ?l = cmd"
    using assms by (rule question_padded_command)
  have q': "readlineSync_question cmd = cmd"
    using question_padded_command [OF assms(1), of "[]" "[]"] by simp
  have same: "main_loop h ((?l, sv) # rest) = main_loop h ((cmd, sv) # rest)"
    by (simp add: q q')
  have 1: "main_step sv h cmd = (Break, h, [Console Goodbye])" if "toLowerCase cmd = ''exit''"
    using that by (simp add: main_step_def)
  have 2: "main_step sv h cmd =
      (Continue, h,
       [Console HistoryHeader, Console (HistoryText (formatHistory h)), Console HistoryFooter])"
    if "toLowerCase cmd = ''history''"
    using that formatHistory_nonempty [of h] by (simp add: main_step_def js_or_def truthy_def)
  have 3: "main_step sv h cmd = (Continue, [], [Console HistoryCleared])"
    if "toLowerCase cmd = ''clear''"
    using that by (simp add: main_step_def)
  have no: "\<not> retrieval_invoked (snd (snd (main_step sv h (readlineSync_question ?l))))"
    using assms(1) 1 2 3 by (auto simp: q retrieval_invoked_def)
  have e: "toLowerCase cmd = ''exit'' \<longrightarrow>
      main_loop h ((?l, sv) # rest) = (h, [Prompt, Console Goodbye])"
    using 1 by (simp add: q)
  have hi: "toLowerCase cmd = ''history'' \<longrightarrow>
      main_loop h ((?l, sv) # rest) =
        (fst (main_loop h rest),
         Prompt # Console HistoryHeader # Console (HistoryText (formatHistory h))
           # Console HistoryFooter # snd (main_loop h rest))"
    using 2 by (simp add: q split: prod.splits)
  have c: "toLowerCase cmd = ''clear'' \<longrightarrow>
      main_loop h ((?l, sv) # rest) =
        (fst (main_loop [] rest), Prompt # Console HistoryCleared # snd (main_loop [] rest))"
    using 3 by (simp add: q split: prod.splits)
  from q same no e hi c show ?thesis by blast
qed

text \<open>A space, a tab, "Exit" and a space: the program says goodbye and stops.\<close>

theorem padded_command_runs_command_witness:
  "toLowerCase ''Exit'' \<in> {''exit'', ''history'', ''clear''}
   \<and> is_ws CHR '' '' \<and> is_ws CHR 0x09
   \<and> readlineSync_question ([CHR '' '', CHR 0x09] @ ''Exit'' @ '' '') = ''Exit''
   \<and> main_loop sample_history
        [([CHR '' '', CHR 0x09] @ ''Exit'' @ '' '', answering ''a''), (''q'', answering ''b'')]
       = (sample_history, [Prompt, Console Goodbye])"
proof -
  have a: "toLowerCase ''Exit'' \<in> {''exit'', ''history'', ''clear''}" by code_simp
  have lc: "toLowerCase ''Exit'' = ''exit''" by code_simp
  have w: "is_ws CHR '' ''" "is_ws CHR 0x09" by (simp_all add: is_ws_def)
  then have b: "\<forall>c\<in>set ([CHR '' '', CHR 0x09] @ '' ''). is_ws c" by simp
  note t = padded_command_runs_command
    [OF a b, of sample_history "answering ''a''" "[(''q'', answering ''b'')]"]
  from t have 1: "readlineSync_question ([CHR '' '', CHR 0x09] @ ''Exit'' @ '' '') = ''Exit''"
    by (rule conjunct1)
  from t lc have 2: "main_loop sample_history
        [([CHR '' '', CHR 0x09] @ ''Exit'' @ '' '', answering ''a''), (''q'', answering ''b'')]
       = (sample_history, [Prompt, Console Goodbye])"
    by blast
  from a w 1 2 show ?thesis by blast
qed

text \<open>
  C9 as stated fails: typed as " exit " the line ends the program, typed as "clear " it
  empties the history; neither is asked as a question.
\<close>

theorem padded_exit_quits:
  "is_ws CHR '' ''
   \<and> \<not> retrieval_invoked (snd (main_loop sample_history [('' exit '', answering ''a'')]))
   \<and> main_loop sample_history [('' exit '', answering ''a'')]
       = (sample_history, [Prompt, Console Goodbye])
   \<and> \<not> retrieval_invoked (snd (main_loop sample_history [(''clear '', answering ''a'')]))
   \<and> main_loop sample_history [(''clear '', answering ''a'')]
       = ([], [Prompt, Console HistoryCleared])"
  by code_simp

end
